theory Spec2Isabelle
  imports Complex_Main "HOL-Library.AList"
begin

section \<open>The event map service over a Redis store\<close>

text \<open>
  The program is a Flask application (\<^verbatim>\<open>app.py\<close>) and a bulk generator
  (\<^verbatim>\<open>insert.py\<close>) over one Redis database. Every event is a Redis hash under the
  key \<^verbatim>\<open>event:<id>\<close> (the Event Store) and a member of the geospatial sorted set
  \<^verbatim>\<open>events_geo\<close> (the Geo Index).

  The Redis server is not part of the repository. Its key-value commands are modelled on
  association lists. Its geometry (which coordinates GEOADD accepts, what GEORADIUS replies)
  is a parameter of the model, the \<open>geo_engine\<close>: the functions of the program are
  verified for every engine, and a property that needs a guarantee of the engine states
  it as a hypothesis. The engine \<open>redis_server\<close> is the model of the server's own geo
  commands, for the properties that depend on how the server measures and compares. Coordinates and radii are exact reals; the distance of a reply is
  converted to an IEEE double before it is rounded, as in Python.
\<close>

subsection \<open>Values, errors and the database\<close>

text \<open>
  A field of a hash or of a JSON result: a string, the string \<^verbatim>\<open>str(x)\<close> of a float or
  of an integer (the decimal rendering itself is not modelled), or a JSON number.
\<close>

datatype rval = Str string | NumStr real | IntStr int | Num real

type_synonym hash = "(string \<times> rval) list"

datatype error = ResponseError string | ZeroDivisionError

datatype geo_unit = M | KM | FT | MI

datatype sort_order = ASC | DESC

type_synonym geo_set = "(string \<times> real \<times> real) list"

text \<open>
  The external geo engine: \<open>accepts lon lat\<close> says whether GEOADD takes the pair,
  \<open>radius_reply\<close> is the reply of GEORADIUS ... WITHDIST: an error, or the members with
  their distances.
\<close>

record geo_engine =
  accepts :: "real \<Rightarrow> real \<Rightarrow> bool"
  radius_reply :: "geo_set \<Rightarrow> real \<Rightarrow> real \<Rightarrow> real \<Rightarrow> geo_unit \<Rightarrow> sort_order
                     \<Rightarrow> error + (string \<times> real) list"

text \<open>
  The database: the hashes by key, and the sorted set \<^verbatim>\<open>events_geo\<close> as member,
  longitude, latitude (the empty list is the absent key).
\<close>

record redis =
  hashes :: "(string \<times> hash) list"
  events_geo :: geo_set

subsection \<open>Redis commands\<close>

definition hgetall :: "redis \<Rightarrow> string \<Rightarrow> hash" where
  "hgetall db key = (case map_of (hashes db) key of None \<Rightarrow> [] | Some h \<Rightarrow> h)"

text \<open>HSET key field value [field value ...]: sets the fields, keeps the others.\<close>

definition hset :: "string \<Rightarrow> hash \<Rightarrow> redis \<Rightarrow> redis" where
  "hset key mapping db =
     db\<lparr>hashes := AList.update key
            (fold (\<lambda>fv h. AList.update (fst fv) (snd fv) h) mapping (hgetall db key))
            (hashes db)\<rparr>"

text \<open>GEOADD: adds the member or moves it; an error and no change when the engine refuses.\<close>

definition geoadd :: "geo_engine \<Rightarrow> real \<Rightarrow> real \<Rightarrow> string \<Rightarrow> redis \<Rightarrow> (error + unit) \<times> redis" where
  "geoadd eng lon lat member db =
     (if accepts eng lon lat
      then (Inr (), db\<lparr>events_geo := AList.update member (lon, lat) (events_geo db)\<rparr>)
      else (Inl (ResponseError ''ERR invalid longitude,latitude pair''), db))"

definition georadius :: "geo_engine \<Rightarrow> redis \<Rightarrow> real \<Rightarrow> real \<Rightarrow> real \<Rightarrow> geo_unit \<Rightarrow> sort_order
                           \<Rightarrow> error + (string \<times> real) list" where
  "georadius eng db lon lat radius unit order =
     radius_reply eng (events_geo db) lon lat radius unit order"

definition zcard :: "redis \<Rightarrow> nat" where
  "zcard db = length (events_geo db)"

text \<open>KEYS event:* : the keys that start with \<^verbatim>\<open>event:\<close>.\<close>

definition event_key_pattern :: "string \<Rightarrow> bool" where
  "event_key_pattern k = (take 6 k = ''event:'')"

definition keys_event :: "redis \<Rightarrow> string list" where
  "keys_event db = filter event_key_pattern (map fst (hashes db))"

definition delete_geo :: "redis \<Rightarrow> redis" where
  "delete_geo db = db\<lparr>events_geo := []\<rparr>"

definition delete_keys :: "string list \<Rightarrow> redis \<Rightarrow> redis" where
  "delete_keys ks db = db\<lparr>hashes := fold AList.delete ks (hashes db)\<rparr>"

subsection \<open>Floats and rounding\<close>

text \<open>
  The nearest integer of an exact real, a tie going to the even one.
\<close>

definition round_half_even :: "real \<Rightarrow> int" where
  "round_half_even x =
     (let f = \<lfloor>x\<rfloor>; d = x - of_int f
      in if d < 1 / 2 then f else if 1 / 2 < d then f + 1 else if even f then f else f + 1)"

text \<open>
  The binary double nearest to a real (IEEE 754 binary64, round to nearest, ties to
  even): 53 significant bits, the exponent at least -1022 (below it the doubles are
  subnormal). Overflow to infinity is not modelled: a distance on Earth stays below
  21000 km. \<^verbatim>\<open>float(s)\<close> of a decimal string is this conversion.
\<close>

definition exponent :: "real \<Rightarrow> int" where
  "exponent x = max \<lfloor>log 2 \<bar>x\<bar>\<rfloor> (- 1022)"

definition ulp :: "real \<Rightarrow> real" where
  "ulp x = 2 powi (exponent x - 52)"

definition nearest_double :: "real \<Rightarrow> real" where
  "nearest_double x =
     (if x = 0 then 0 else sgn x * (of_int (round_half_even (\<bar>x\<bar> / ulp x)) * ulp x))"

text \<open>
  Python's \<^verbatim>\<open>round(x, 2)\<close> of a double \<open>x\<close>: the exact binary value of \<open>x\<close> is
  rounded to the nearest multiple of 0.01, an exact tie going to the even one, and the
  result is the double nearest to that decimal.
\<close>

definition round2 :: "real \<Rightarrow> real" where
  "round2 x = nearest_double (of_int (round_half_even (x * 100)) / 100)"

subsection \<open>app.py: search\_events\<close>

record search_response =
  events :: "hash list"
  count :: nat

text \<open>
  The loop over \<^verbatim>\<open>zip(nearby_ids, event_details)\<close>, with the list
  \<^verbatim>\<open>nearby_events\<close> it appends to. A hit carries the distance as the decimal of the
  reply; the client library hands it over as a float, on which \<^verbatim>\<open>float(distance)\<close>
  changes nothing.
\<close>

fun combine :: "((string \<times> real) \<times> hash) list \<Rightarrow> hash list \<Rightarrow> hash list" where
  "combine [] nearby_events = nearby_events"
| "combine (((event_id, distance), details) # rest) nearby_events =
     (if details \<noteq> []
      then combine rest (nearby_events @
             [AList.update ''distance'' (Num (round2 (nearest_double distance))) details])
      else combine rest nearby_events)"

definition event_key :: "string \<Rightarrow> string" where
  "event_key event_id = ''event:'' @ event_id"

text \<open>
  The response without \<^verbatim>\<open>time_ms\<close> (a wall-clock measurement). An error of GEORADIUS
  is not caught: the request fails with it.
\<close>

definition search_events :: "geo_engine \<Rightarrow> redis \<Rightarrow> real \<Rightarrow> real \<Rightarrow> real \<Rightarrow> error + search_response" where
  "search_events eng db tracker_lat tracker_lon radius =
     (case georadius eng db tracker_lon tracker_lat radius KM ASC of
        Inl e \<Rightarrow> Inl e
      | Inr nearby_ids \<Rightarrow>
          (let nearby_events =
                 (if nearby_ids \<noteq> []
                  then (let event_details = map (\<lambda>hit. hgetall db (event_key (fst hit))) nearby_ids
                        in combine (zip nearby_ids event_details) [])
                  else [])
           in Inr \<lparr>events = nearby_events, count = length nearby_events\<rparr>))"

subsection \<open>app.py: create\_event, get\_event\_count, clear\_events\<close>

record create_response =
  success :: bool
  event_id :: string
  message :: string

text \<open>
  \<open>uuid4\<close> is the string of the random UUID drawn by the call, \<open>now\<close> the clock in
  whole seconds. The hash is written first, then the member is added to the index; an
  error of GEOADD is not caught.
\<close>

definition create_event :: "geo_engine \<Rightarrow> string \<Rightarrow> int \<Rightarrow> string \<Rightarrow> real \<Rightarrow> real \<Rightarrow> redis
                              \<Rightarrow> (error + create_response) \<times> redis" where
  "create_event eng uuid4 now name lat lon db =
     (let event_id = take 8 uuid4;
          event_data = [(''id'', Str event_id), (''name'', Str name), (''lat'', NumStr lat),
                        (''lon'', NumStr lon), (''created_at'', IntStr now)];
          db1 = hset (event_key event_id) event_data db;
          added = geoadd eng lon lat event_id db1
      in case fst added of
           Inl e \<Rightarrow> (Inl e, snd added)
         | Inr u \<Rightarrow>
             (Inr \<lparr>success = True, event_id = event_id,
                   message = ''Event '' @ [CHR 0x22] @ name @ [CHR 0x22] @ '' created successfully''\<rparr>,
              snd added))"

definition get_event_count :: "redis \<Rightarrow> nat" where
  "get_event_count db = zcard db"

text \<open>The result is the field \<^verbatim>\<open>cleared\<close> of the response and the database left.\<close>

definition clear_events :: "redis \<Rightarrow> nat \<times> redis" where
  "clear_events db =
     (let db1 = delete_geo db;
          event_keys = keys_event db1;
          db2 = (if event_keys \<noteq> [] then delete_keys event_keys db1 else db1)
      in (length event_keys, db2))"

subsection \<open>insert.py: insert\_events\<close>

text \<open>
  A pipeline queues commands. \<^verbatim>\<open>pipeline.execute()\<close> runs them in order; a command
  that fails changes nothing and does not stop the later ones, and the first error is
  raised once all have run.
\<close>

datatype command = HSET string hash | GEOADD real real string

fun run_command :: "geo_engine \<Rightarrow> command \<Rightarrow> redis \<Rightarrow> (error + unit) \<times> redis" where
  "run_command eng (HSET key mapping) db = (Inr (), hset key mapping db)"
| "run_command eng (GEOADD lon lat member) db = geoadd eng lon lat member db"

fun execute :: "geo_engine \<Rightarrow> command list \<Rightarrow> redis \<Rightarrow> (error + unit) \<times> redis" where
  "execute eng [] db = (Inr (), db)"
| "execute eng (c # cs) db =
     (let r = run_command eng c db;
          rest = execute eng cs (snd r)
      in case fst r of Inl e \<Rightarrow> (Inl e, snd rest) | Inr u \<Rightarrow> rest)"

text \<open>
  What one iteration of the loop draws at random or reads from the clock: the city of
  \<^verbatim>\<open>get_weighted_city\<close>, the rounded point of \<^verbatim>\<open>generate_random_point\<close> (latitude,
  longitude), the string of \<^verbatim>\<open>uuid.uuid4()\<close>, the name of \<^verbatim>\<open>generate_event_name\<close>
  and the clock in whole seconds.
\<close>

record draw =
  city_name :: string
  point :: "real \<times> real"
  uuid :: string
  event_name :: string
  created :: int

text \<open>
  The body of the \<^verbatim>\<open>for\<close> loop, with the pending pipeline and the counter
  \<^verbatim>\<open>inserted\<close>. \<^verbatim>\<open>inserted % batch_size\<close> raises for a batch size of zero.
\<close>

fun insert_loop :: "geo_engine \<Rightarrow> int \<Rightarrow> draw list \<Rightarrow> command list \<Rightarrow> int \<Rightarrow> redis
                      \<Rightarrow> (error + command list \<times> int) \<times> redis" where
  "insert_loop eng batch_size [] pipeline inserted db = (Inr (pipeline, inserted), db)"
| "insert_loop eng batch_size (d # ds) pipeline inserted db =
     (let lat = fst (point d);
          lon = snd (point d);
          event_id = take 8 (uuid d);
          event_data = [(''id'', Str event_id), (''name'', Str (event_name d)),
                        (''city'', Str (city_name d)), (''lat'', NumStr lat),
                        (''lon'', NumStr lon), (''created_at'', IntStr (created d))];
          pipeline1 = pipeline @ [HSET (event_key event_id) event_data, GEOADD lon lat event_id];
          inserted1 = inserted + 1
      in if batch_size = 0 then (Inl ZeroDivisionError, db)
         else if inserted1 mod batch_size = 0
         then (let r = execute eng pipeline1 db
               in case fst r of
                    Inl e \<Rightarrow> (Inl e, snd r)
                  | Inr u \<Rightarrow> insert_loop eng batch_size ds [] inserted1 (snd r))
         else insert_loop eng batch_size ds pipeline1 inserted1 db)"

text \<open>
  \<open>draws i\<close> is what iteration \<open>i\<close> of \<^verbatim>\<open>range(num_events)\<close> draws. The result is the
  returned counter and the database left. (The rate printed at the end divides by the
  elapsed wall-clock time, which is not modelled.)
\<close>

definition insert_events :: "geo_engine \<Rightarrow> (nat \<Rightarrow> draw) \<Rightarrow> int \<Rightarrow> int \<Rightarrow> redis \<Rightarrow> (error + int) \<times> redis" where
  "insert_events eng draws num_events batch_size db =
     (let r = insert_loop eng batch_size (map draws [0..<nat num_events]) [] 0 db
      in case fst r of
           Inl e \<Rightarrow> (Inl e, snd r)
         | Inr st \<Rightarrow>
             if batch_size = 0 then (Inl ZeroDivisionError, snd r)
             else if snd st mod batch_size \<noteq> 0
             then (let x = execute eng (fst st) (snd r)
                   in case fst x of Inl e \<Rightarrow> (Inl e, snd x) | Inr u \<Rightarrow> (Inr (snd st), snd x))
             else (Inr (snd st), snd r))"

subsection \<open>The geo commands of the Redis server\<close>

text \<open>
  The great-circle distance by the haversine formula on a sphere of radius \<open>R\<close>, between
  two points given as longitude and latitude in degrees.
\<close>

definition deg_rad :: "real \<Rightarrow> real" where
  "deg_rad ang = ang * (pi / 180)"

definition haversine :: "real \<Rightarrow> real \<Rightarrow> real \<Rightarrow> real \<Rightarrow> real \<Rightarrow> real" where
  "haversine R lon1 lat1 lon2 lat2 =
     (let u = sin ((deg_rad lat2 - deg_rad lat1) / 2);
          v = sin ((deg_rad lon2 - deg_rad lon1) / 2)
      in 2 * R * arcsin (sqrt (u * u + cos (deg_rad lat1) * cos (deg_rad lat2) * v * v)))"

text \<open>
  Modelled from the spec: the distance of the Geo Index is the haversine formula in
  kilometres with the Earth radius fixed at 6371.0 km (the source computes no distance
  itself; GEORADIUS is a command of the Redis server, which is not in the repository).
\<close>

definition great_circle_km :: "real \<Rightarrow> real \<Rightarrow> real \<Rightarrow> real \<Rightarrow> real" where
  "great_circle_km lon1 lat1 lon2 lat2 = haversine 6371.0 lon1 lat1 lon2 lat2"

text \<open>
  The server measures in metres with its own Earth radius, 6372797.560856 m. It measures
  from the position kept in the sorted set, which is the given position up to the 52-bit
  geohash encoding (less than a metre); the model keeps the given position, and computes
  on exact reals where the server computes in doubles.
\<close>

definition server_distance :: "real \<Rightarrow> real \<Rightarrow> real \<Rightarrow> real \<Rightarrow> real" where
  "server_distance lon1 lat1 lon2 lat2 = haversine 6372797.560856 lon1 lat1 lon2 lat2"

text \<open>The units of GEORADIUS in metres.\<close>

definition to_meters :: "geo_unit \<Rightarrow> real" where
  "to_meters unit = (case unit of M \<Rightarrow> 1 | KM \<Rightarrow> 1000 | FT \<Rightarrow> 0.3048 | MI \<Rightarrow> 1609.34)"

text \<open>A distance of a reply is written with four decimals.\<close>

definition fixed4 :: "real \<Rightarrow> real" where
  "fixed4 x = of_int (round_half_even (x * 10000)) / 10000"

text \<open>The coordinates that GEOADD and GEORADIUS take.\<close>

definition server_accepts :: "real \<Rightarrow> real \<Rightarrow> bool" where
  "server_accepts lon lat =
     (- 180 \<le> lon \<and> lon \<le> 180 \<and> - 85.05112878 \<le> lat \<and> lat \<le> 85.05112878)"

text \<open>
  GEORADIUS ... WITHDIST: the centre is checked, then the radius; the members whose
  distance in metres is at most the radius in metres are sorted by that distance (two
  members at the same distance stay in the order of the set, which the server does not
  promise), and each is replied with its distance in the unit asked for.
\<close>

definition in_radius :: "geo_set \<Rightarrow> real \<Rightarrow> real \<Rightarrow> real \<Rightarrow> (string \<times> real) list" where
  "in_radius idx lon lat radius_m =
     filter (\<lambda>found. snd found \<le> radius_m)
       (map (\<lambda>entry. (fst entry, server_distance lon lat (fst (snd entry)) (snd (snd entry)))) idx)"

definition server_georadius :: "geo_set \<Rightarrow> real \<Rightarrow> real \<Rightarrow> real \<Rightarrow> geo_unit \<Rightarrow> sort_order
                                  \<Rightarrow> error + (string \<times> real) list" where
  "server_georadius idx lon lat radius unit order =
     (if \<not> server_accepts lon lat then Inl (ResponseError ''ERR invalid longitude,latitude pair'')
      else if radius < 0 then Inl (ResponseError ''ERR radius cannot be negative'')
      else (let found = sort_key snd (in_radius idx lon lat (radius * to_meters unit));
                ordered = (case order of ASC \<Rightarrow> found | DESC \<Rightarrow> rev found)
            in Inr (map (\<lambda>found. (fst found, fixed4 (snd found / to_meters unit))) ordered)))"

definition redis_server :: geo_engine where
  "redis_server = \<lparr>accepts = server_accepts, radius_reply = server_georadius\<rparr>"

subsection \<open>Engines and data of the examples\<close>

text \<open>
  Modelled from the spec: a Point has its latitude in [-90, 90] and its longitude in
  [-180, 180], and the Geo Index refuses any other pair (the GEOADD of the source is a
  command of the Redis server, which is not in the repository).
\<close>

definition in_range :: "real \<Rightarrow> real \<Rightarrow> bool" where
  "in_range lon lat = (- 180 \<le> lon \<and> lon \<le> 180 \<and> - 90 \<le> lat \<and> lat \<le> 90)"

text \<open>
  A scripted GEORADIUS for the examples: it refuses a negative radius, as the Redis
  server does, and replies with the given hits otherwise.
\<close>

definition scripted :: "(string \<times> real) list \<Rightarrow> geo_set \<Rightarrow> real \<Rightarrow> real \<Rightarrow> real \<Rightarrow> geo_unit
                          \<Rightarrow> sort_order \<Rightarrow> error + (string \<times> real) list" where
  "scripted hits idx lon lat radius unit order =
     (if radius < 0 then Inl (ResponseError ''ERR radius cannot be negative'') else Inr hits)"

definition engine :: "(string \<times> real) list \<Rightarrow> geo_engine" where
  "engine hits = \<lparr>accepts = in_range, radius_reply = scripted hits\<rparr>"

definition empty_db :: redis where
  "empty_db = \<lparr>hashes = [], events_geo = []\<rparr>"

text \<open>
  One event with its record, and a member \<^verbatim>\<open>ffffffff\<close> of the index that has no
  record.
\<close>

definition delhi_db :: redis where
  "delhi_db = \<lparr>hashes = [(''event:0a1b2c3d'',
                  [(''id'', Str ''0a1b2c3d''), (''name'', Str ''Delhi''),
                   (''lat'', NumStr 28.6139), (''lon'', NumStr 77.2090),
                   (''created_at'', IntStr 1700000000)])],
               events_geo = [(''0a1b2c3d'', 77.2090, 28.6139), (''ffffffff'', 77.2167, 28.6315)]\<rparr>"

text \<open>Two events east and west of a query point, each with its record.\<close>

definition pair_db :: redis where
  "pair_db = \<lparr>hashes = [(''event:aaaaaaaa'', [(''id'', Str ''aaaaaaaa''), (''name'', Str ''East'')]),
                        (''event:bbbbbbbb'', [(''id'', Str ''bbbbbbbb''), (''name'', Str ''West'')])],
              events_geo = [(''aaaaaaaa'', 77.2190, 28.6139), (''bbbbbbbb'', 77.1990, 28.6139)]\<rparr>"

text \<open>The database after one call of \<open>create_event\<close> on the empty one.\<close>

definition first_db :: redis where
  "first_db = snd (create_event (engine []) ''0a1b2c3d-1111-4111-8111-111111111111'' 1700000000
                     ''Delhi'' 28.6139 77.2090 empty_db)"

text \<open>
  Draws whose UUIDs differ and start with the same eight characters (both are version 4
  UUIDs).
\<close>

definition colliding_draws :: "nat \<Rightarrow> draw" where
  "colliding_draws i =
     \<lparr>city_name = ''Delhi'', point = (28.6139, 77.2090),
      uuid = (if i = 0 then ''0a1b2c3d-1111-4111-8111-111111111111''
              else ''0a1b2c3d-2222-4222-8222-222222222222''),
      event_name = ''Tech Meetup @ Delhi'', created = 1700000000\<rparr>"

text \<open>
  The database after two calls of \<open>create_event\<close> against the server model: an event in
  Delhi and one 0.17984 degrees of latitude to the north of it.
\<close>

definition delhi_uuid :: string where
  "delhi_uuid = ''0a1b2c3d-1111-4111-8111-111111111111''"

definition north_uuid :: string where
  "north_uuid = ''9f8e7d6c-2222-4222-8222-222222222222''"

definition served_db :: redis where
  "served_db =
     snd (create_event redis_server north_uuid 1700000001 ''North'' 28.79374 77.2090
       (snd (create_event redis_server delhi_uuid 1700000000 ''Delhi'' 28.6139 77.2090 empty_db)))"

section \<open>The join of the geo hits with the Event Store\<close>

definition has_record :: "redis \<Rightarrow> string \<times> real \<Rightarrow> bool" where
  "has_record db hit = (hgetall db (event_key (fst hit)) \<noteq> [])"

definition annotate :: "redis \<Rightarrow> string \<times> real \<Rightarrow> hash" where
  "annotate db hit =
     AList.update ''distance'' (Num (round2 (nearest_double (snd hit))))
       (hgetall db (event_key (fst hit)))"

text \<open>The distance reported in an entry of the result (0 when the field is absent).\<close>

definition distance_of :: "hash \<Rightarrow> real" where
  "distance_of details = (case map_of details ''distance'' of Some (Num x) \<Rightarrow> x | _ \<Rightarrow> 0)"

text \<open>
  For a member of the index: its full-precision distance in metres from the centre of a
  query, and the hit the server replies for it when asked for kilometres.
\<close>

definition member_distance :: "real \<Rightarrow> real \<Rightarrow> string \<times> real \<times> real \<Rightarrow> real" where
  "member_distance lon lat entry = server_distance lon lat (fst (snd entry)) (snd (snd entry))"

definition reply_of :: "real \<Rightarrow> real \<Rightarrow> string \<times> real \<times> real \<Rightarrow> string \<times> real" where
  "reply_of lon lat entry = (fst entry, fixed4 (member_distance lon lat entry / 1000))"

text \<open>The identifiers in a response: the field \<^verbatim>\<open>id\<close> of each returned entry.\<close>

definition returned_ids :: "search_response \<Rightarrow> rval option list" where
  "returned_ids resp = map (\<lambda>details. map_of details ''id'') (events resp)"

text \<open>
  The two stores agree: the members of the index are distinct, and each has its record,
  whose field \<^verbatim>\<open>id\<close> is the member. It holds of the empty database, and
  \<open>create_event\<close> and \<open>clear_events\<close> keep it (lemmas \<open>consistent_empty_db\<close>,
  \<open>consistent_create_event\<close>, \<open>consistent_clear_events\<close>).
\<close>

definition consistent :: "redis \<Rightarrow> bool" where
  "consistent db =
     (distinct (map fst (events_geo db)) \<and>
      (\<forall>entry \<in> set (events_geo db).
          map_of (hgetall db (event_key (fst entry))) ''id'' = Some (Str (fst entry))))"

lemma combine_zip:
  "combine (zip hits (map (\<lambda>hit. hgetall db (event_key (fst hit))) hits)) acc =
     acc @ map (annotate db) (filter (has_record db) hits)"
proof (induction hits arbitrary: acc)
  case Nil
  show ?case by simp
next
  case (Cons hit hits)
  obtain i d where hit: "hit = (i, d)" by (cases hit)
  show ?case
    by (simp add: hit Cons.IH has_record_def annotate_def)
qed

lemma search_events_join:
  assumes "georadius eng db lon lat radius KM ASC = Inr hits"
  shows "search_events eng db lat lon radius =
           Inr \<lparr>events = map (annotate db) (filter (has_record db) hits),
                count = length (filter (has_record db) hits)\<rparr>"
proof (cases "hits = []")
  case True
  with assms show ?thesis by (simp add: search_events_def)
next
  case False
  with assms show ?thesis by (simp add: search_events_def combine_zip Let_def)
qed

lemma search_events_error:
  assumes "georadius eng db lon lat radius KM ASC = Inl e"
  shows "search_events eng db lat lon radius = Inl e"
  using assms by (simp add: search_events_def)

section \<open>Rounding, deletion and the example data\<close>

lemma round_half_even_bounds:
  "\<lfloor>x\<rfloor> \<le> round_half_even x" "round_half_even x \<le> \<lfloor>x\<rfloor> + 1"
  by (simp_all add: round_half_even_def Let_def)

lemma round_half_even_near: "\<bar>of_int (round_half_even x) - x\<bar> \<le> 1 / 2"
proof -
  have "of_int \<lfloor>x\<rfloor> \<le> x" "x < of_int \<lfloor>x\<rfloor> + 1" by linarith+
  then show ?thesis
    by (auto simp: round_half_even_def Let_def)
qed

lemma round_half_even_mono:
  assumes "x \<le> y"
  shows "round_half_even x \<le> round_half_even y"
proof (cases "\<lfloor>x\<rfloor> = \<lfloor>y\<rfloor>")
  case True
  with assms show ?thesis
    by (auto simp: round_half_even_def Let_def)
next
  case False
  with assms have "\<lfloor>x\<rfloor> + 1 \<le> \<lfloor>y\<rfloor>"
    using floor_mono [of x y] by linarith
  with round_half_even_bounds(2) [of x] round_half_even_bounds(1) [of y]
  show ?thesis by linarith
qed

lemma round_half_even_of_int [simp]: "round_half_even (of_int n) = n"
  by (simp add: round_half_even_def)

lemma exponent_eq:
  assumes "2 powi e \<le> \<bar>x\<bar>" "\<bar>x\<bar> < 2 powi (e + 1)" "- 1022 \<le> e"
  shows "exponent x = e"
proof -
  have pos: "0 < \<bar>x\<bar>"
    using assms(1) by (smt (verit) zero_less_power_int)
  have "of_int e \<le> log 2 \<bar>x\<bar>"
    using assms(1) pos by (simp add: le_log_iff powr_real_of_int')
  moreover have "2 powi (e + 1) = (2 :: real) powr of_int (e + 1)"
    by (rule powr_real_of_int' [symmetric]) simp_all
  then have "log 2 \<bar>x\<bar> < of_int (e + 1)"
    using assms(2) pos by (simp only: log_less_iff)
  ultimately have "\<lfloor>log 2 \<bar>x\<bar>\<rfloor> = e" by linarith
  with assms(3) show ?thesis by (simp add: exponent_def)
qed

lemma nearest_double_eval:
  assumes "2 powi e \<le> \<bar>x\<bar>" "\<bar>x\<bar> < 2 powi (e + 1)" "- 1022 \<le> e"
  shows "nearest_double x =
           sgn x * (of_int (round_half_even (\<bar>x\<bar> / 2 powi (e - 52))) * 2 powi (e - 52))"
proof -
  have "x \<noteq> 0" using assms(1) by (smt (verit) zero_less_power_int)
  then show ?thesis
    by (simp add: nearest_double_def ulp_def exponent_eq [OF assms])
qed

lemma pow2_powr: "(2 :: real) powr of_int n = 2 powi n"
  by (rule powr_real_of_int') simp_all

lemma ulp_pos: "0 < ulp x"
  by (simp add: ulp_def)

lemma pow2_split: "(2 :: real) powi (e + 1) = 2 ^ 53 * 2 powi (e - 52)"
proof -
  have "(2 :: real) powi (53 + (e - 52)) = 2 powi 53 * 2 powi (e - 52)"
    by (rule power_int_add) simp
  then show ?thesis by (simp add: add.commute)
qed

lemma pow2_split': "(2 :: real) powi e = 2 ^ 52 * 2 powi (e - 52)"
proof -
  have "(2 :: real) powi (52 + (e - 52)) = 2 powi 52 * 2 powi (e - 52)"
    by (rule power_int_add) simp
  then show ?thesis by simp
qed

lemma exponent_upper:
  assumes "x \<noteq> 0"
  shows "\<bar>x\<bar> < 2 powi (exponent x + 1)"
proof -
  have "log 2 \<bar>x\<bar> < of_int (\<lfloor>log 2 \<bar>x\<bar>\<rfloor> + 1)" by linarith
  also have "\<dots> \<le> of_int (exponent x + 1)"
    by (simp add: exponent_def)
  finally have "2 powr log 2 \<bar>x\<bar> < 2 powr of_int (exponent x + 1)"
    by (simp only: powr_less_cancel_iff)
  then show ?thesis
    using assms by (simp only: pow2_powr) simp
qed

lemma exponent_lower:
  assumes "x \<noteq> 0" "- 1022 < exponent x"
  shows "2 powi exponent x \<le> \<bar>x\<bar>"
proof -
  have "exponent x = \<lfloor>log 2 \<bar>x\<bar>\<rfloor>"
    using assms(2) by (simp add: exponent_def max_def split: if_splits)
  then have "of_int (exponent x) \<le> log 2 \<bar>x\<bar>" by simp
  then have "2 powr of_int (exponent x) \<le> 2 powr log 2 \<bar>x\<bar>"
    by (simp only: powr_le_cancel_iff)
  then show ?thesis
    using assms(1) by (simp only: pow2_powr) simp
qed

lemma exponent_mono:
  assumes "x \<noteq> 0" "\<bar>x\<bar> \<le> \<bar>y\<bar>"
  shows "exponent x \<le> exponent y"
proof -
  have "log 2 \<bar>x\<bar> \<le> log 2 \<bar>y\<bar>"
    using assms by simp
  then have "\<lfloor>log 2 \<bar>x\<bar>\<rfloor> \<le> \<lfloor>log 2 \<bar>y\<bar>\<rfloor>" by (rule floor_mono)
  then show ?thesis by (simp add: exponent_def)
qed

lemma significand_upper:
  assumes "x \<noteq> 0"
  shows "of_int (round_half_even (\<bar>x\<bar> / ulp x)) * ulp x \<le> 2 powi (exponent x + 1)"
proof -
  let ?t = "\<bar>x\<bar> / ulp x"
  have "\<bar>x\<bar> < 2 ^ 53 * ulp x"
    using exponent_upper [OF assms] by (simp add: ulp_def pow2_split)
  then have "?t < 2 ^ 53"
    using ulp_pos [of x] by (simp add: field_simps)
  then have "?t < of_int (2 ^ 53)" by simp
  then have "\<lfloor>?t\<rfloor> < 2 ^ 53" by (simp only: floor_less_iff)
  with round_half_even_bounds(2) [of ?t] have "round_half_even ?t \<le> 2 ^ 53" by linarith
  then have "(of_int (round_half_even ?t) :: real) \<le> of_int (2 ^ 53)"
    by (simp only: of_int_le_iff)
  then have "of_int (round_half_even ?t) * ulp x \<le> 2 ^ 53 * ulp x"
    using ulp_pos [of x] by simp
  then show ?thesis by (simp add: ulp_def pow2_split)
qed

lemma significand_lower:
  assumes "x \<noteq> 0" "- 1022 < exponent x"
  shows "2 powi exponent x \<le> of_int (round_half_even (\<bar>x\<bar> / ulp x)) * ulp x"
proof -
  let ?t = "\<bar>x\<bar> / ulp x"
  have "2 ^ 52 * ulp x \<le> \<bar>x\<bar>"
    using exponent_lower [OF assms] pow2_split' [of "exponent x"] by (simp add: ulp_def)
  then have "of_int (2 ^ 52) \<le> ?t"
    using ulp_pos [of x] by (simp add: field_simps)
  then have "2 ^ 52 \<le> \<lfloor>?t\<rfloor>" by (simp only: le_floor_iff)
  with round_half_even_bounds(1) [of ?t] have "2 ^ 52 \<le> round_half_even ?t" by linarith
  then have "(of_int (2 ^ 52) :: real) \<le> of_int (round_half_even ?t)"
    by (simp only: of_int_le_iff)
  then have "2 ^ 52 * ulp x \<le> of_int (round_half_even ?t) * ulp x"
    using ulp_pos [of x] by simp
  then show ?thesis using pow2_split' [of "exponent x"] by (simp add: ulp_def)
qed

lemma significand_nonneg: "0 \<le> of_int (round_half_even (\<bar>x\<bar> / ulp x)) * ulp x"
proof -
  have "0 \<le> \<bar>x\<bar> / ulp x" using ulp_pos [of x] by simp
  then have "0 \<le> \<lfloor>\<bar>x\<bar> / ulp x\<rfloor>" by simp
  with round_half_even_bounds(1) [of "\<bar>x\<bar> / ulp x"] have "0 \<le> round_half_even (\<bar>x\<bar> / ulp x)"
    by linarith
  then show ?thesis using ulp_pos [of x] by simp
qed

lemma significand_mono:
  assumes "x \<noteq> 0" "\<bar>x\<bar> \<le> \<bar>y\<bar>"
  shows "of_int (round_half_even (\<bar>x\<bar> / ulp x)) * ulp x
           \<le> of_int (round_half_even (\<bar>y\<bar> / ulp y)) * ulp y"
proof (cases "exponent x = exponent y")
  case True
  then have u: "ulp x = ulp y" by (simp add: ulp_def)
  have "\<bar>x\<bar> / ulp y \<le> \<bar>y\<bar> / ulp y"
    using assms(2) ulp_pos [of y] by (simp add: divide_right_mono)
  then have "round_half_even (\<bar>x\<bar> / ulp y) \<le> round_half_even (\<bar>y\<bar> / ulp y)"
    by (rule round_half_even_mono)
  then show ?thesis using ulp_pos [of y] by (simp add: u)
next
  case False
  have y: "y \<noteq> 0" using assms by auto
  from False exponent_mono [OF assms] have less: "exponent x + 1 \<le> exponent y" by simp
  moreover have "- 1022 \<le> exponent x" by (simp add: exponent_def)
  ultimately have "- 1022 < exponent y" by simp
  from significand_lower [OF y this]
  have "2 powi exponent y \<le> of_int (round_half_even (\<bar>y\<bar> / ulp y)) * ulp y" .
  moreover have "(2 :: real) powi (exponent x + 1) \<le> 2 powi exponent y"
    using less by (simp add: power_int_increasing)
  ultimately show ?thesis using significand_upper [OF assms(1)] by linarith
qed

lemma nearest_double_mono:
  assumes "x \<le> y"
  shows "nearest_double x \<le> nearest_double y"
proof -
  consider "x = 0" | "y = 0" | "x < 0" "0 < y" | "0 < x" | "y < 0" using assms by linarith
  then show ?thesis
  proof cases
    case 1
    with assms significand_nonneg [of y] show ?thesis
      by (simp add: nearest_double_def sgn_if)
  next
    case 2
    with assms significand_nonneg [of x] show ?thesis
      by (simp add: nearest_double_def sgn_if)
  next
    case 3
    with significand_nonneg [of x] significand_nonneg [of y] show ?thesis
      by (simp add: nearest_double_def sgn_if)
  next
    case 4
    with assms significand_mono [of x y] show ?thesis
      by (simp add: nearest_double_def sgn_if)
  next
    case 5
    with assms significand_mono [of y x] show ?thesis
      by (simp add: nearest_double_def sgn_if)
  qed
qed

lemma round2_mono: "x \<le> y \<Longrightarrow> round2 x \<le> round2 y"
  unfolding round2_def
  by (intro nearest_double_mono divide_right_mono) (simp_all add: round_half_even_mono)

lemma round2_float_mono: "x \<le> y \<Longrightarrow> round2 (nearest_double x) \<le> round2 (nearest_double y)"
  by (intro round2_mono nearest_double_mono)

text \<open>Values of the examples; the two decimal ties go as they do in Python.\<close>

lemma nearest_double_0: "nearest_double 0 = 0"
  by (simp add: nearest_double_def)

lemma nearest_double_1: "nearest_double 1 = 1"
  by (subst nearest_double_eval [of 0]) (simp_all add: round_half_even_def)

lemma round2_float_0: "round2 (nearest_double 0) = 0"
  by (simp add: nearest_double_0 round2_def round_half_even_def)

lemma round2_float_1: "round2 (nearest_double 1) = 1"
  by (simp add: nearest_double_1 round2_def round_half_even_def)

lemma nearest_double_2675: "nearest_double 2.675 = 6023564501608038 / 2 ^ 51"
  by (subst nearest_double_eval [of 1]) (simp_all add: round_half_even_def)

lemma round2_tie_down: "round2 (nearest_double 2.675) = nearest_double 2.67"
  unfolding nearest_double_2675 by (simp add: round2_def round_half_even_def)

lemma nearest_double_0005: "nearest_double 0.005 = 5764607523034235 / 2 ^ 60"
  by (subst nearest_double_eval [of "-8"]) (simp_all add: round_half_even_def)

lemma round2_tie_up: "round2 (nearest_double 0.005) = nearest_double 0.01"
  unfolding nearest_double_0005 by (simp add: round2_def round_half_even_def)

lemma sorted_map_round2:
  "sorted (map snd hits) \<Longrightarrow>
     sorted (map (\<lambda>hit. round2 (nearest_double (snd hit))) (filter P hits))"
  by (induction hits) (auto simp: round2_float_mono)

lemma distance_of_annotate: "distance_of (annotate db hit) = round2 (nearest_double (snd hit))"
  by (simp add: distance_of_def annotate_def update_conv')

lemma map_of_fold_delete:
  "map_of (fold AList.delete ks al) k = (if k \<in> set ks then None else map_of al k)"
  by (induction ks arbitrary: al) (auto simp: delete_conv')

lemma georadius_engine:
  "0 \<le> radius \<Longrightarrow> georadius (engine hits) db lon lat radius KM ASC = Inr hits"
  by (simp add: georadius_def engine_def scripted_def)

lemma has_record_delhi:
  "has_record delhi_db (''0a1b2c3d'', d)" "\<not> has_record delhi_db (''ffffffff'', d)"
  by (simp_all add: has_record_def hgetall_def delhi_db_def event_key_def)

lemma annotate_delhi:
  "annotate delhi_db (''0a1b2c3d'', d) =
     [(''id'', Str ''0a1b2c3d''), (''name'', Str ''Delhi''),
      (''lat'', NumStr 28.6139), (''lon'', NumStr 77.2090),
      (''created_at'', IntStr 1700000000), (''distance'', Num (round2 (nearest_double d)))]"
  by (simp add: annotate_def hgetall_def delhi_db_def event_key_def)

lemma fold_delete_filter:
  "fold AList.delete ks al = filter (\<lambda>p. fst p \<notin> set ks) al"
proof (induction ks arbitrary: al)
  case Nil
  show ?case by simp
next
  case (Cons k ks)
  have "AList.delete k al = filter (\<lambda>p. fst p \<noteq> k) al"
    by (induction al) (auto simp: AList.delete_eq)
  then show ?case
    by (simp add: Cons.IH conj_commute)
qed

lemma hashes_clear_events:
  "hashes (snd (clear_events db)) = filter (\<lambda>p. \<not> event_key_pattern (fst p)) (hashes db)"
proof -
  have "filter (\<lambda>p. fst p \<notin> set (keys_event db)) (hashes db)
          = filter (\<lambda>p. \<not> event_key_pattern (fst p)) (hashes db)"
    by (rule filter_cong) (auto simp: keys_event_def)
  moreover have "keys_event db = [] \<Longrightarrow>
                   filter (\<lambda>p. \<not> event_key_pattern (fst p)) (hashes db) = hashes db"
    by (auto simp: keys_event_def filter_empty_conv filter_id_conv)
  ultimately show ?thesis
    by (simp add: clear_events_def Let_def delete_geo_def delete_keys_def keys_event_def
          fold_delete_filter)
qed

lemma events_geo_clear_events: "events_geo (snd (clear_events db)) = []"
  by (simp add: clear_events_def Let_def delete_geo_def delete_keys_def)

lemma cleared_clear_events: "fst (clear_events db) = length (keys_event db)"
  by (simp add: clear_events_def Let_def delete_geo_def keys_event_def)

lemma event_key_matches: "event_key_pattern (event_key i)"
  by (simp add: event_key_pattern_def event_key_def)

lemma no_record_after_clear: "\<not> has_record (snd (clear_events db)) hit"
proof -
  have "map_of (hashes (snd (clear_events db))) (event_key (fst hit)) = None"
    by (auto simp: hashes_clear_events map_of_eq_None_iff event_key_matches)
  then show ?thesis by (simp add: has_record_def hgetall_def)
qed

lemma event_keys_card:
  assumes "distinct (map fst al)"
  shows "length (filter event_key_pattern (map fst al))
           = card {k. event_key_pattern k \<and> map_of al k \<noteq> None}"
proof -
  have "{k. event_key_pattern k \<and> map_of al k \<noteq> None} = set (filter event_key_pattern (map fst al))"
    by (auto simp: map_of_eq_None_iff)
  moreover have "distinct (filter event_key_pattern (map fst al))"
    using assms by (rule distinct_filter)
  ultimately show ?thesis
    by (simp only: distinct_card)
qed

lemma hgetall_hset:
  "hgetall (hset key mapping db) k =
     (if k = key then fold (\<lambda>fv h. AList.update (fst fv) (snd fv) h) mapping (hgetall db key)
      else hgetall db k)"
  by (simp add: hgetall_def hset_def update_conv')

lemma events_geo_hset: "events_geo (hset key mapping db) = events_geo db"
  by (simp add: hset_def)

lemma hashes_geoadd: "hashes (snd (geoadd eng lon lat member db)) = hashes db"
  by (simp add: geoadd_def)

lemma hgetall_geoadd: "hgetall (snd (geoadd eng lon lat member db)) k = hgetall db k"
  by (simp add: hgetall_def hashes_geoadd)

lemma create_event_record:
  "hgetall (snd (create_event eng uuid4 now name lat lon db)) k =
     (if k = event_key (take 8 uuid4)
      then fold (\<lambda>fv h. AList.update (fst fv) (snd fv) h)
             [(''id'', Str (take 8 uuid4)), (''name'', Str name), (''lat'', NumStr lat),
              (''lon'', NumStr lon), (''created_at'', IntStr now)]
             (hgetall db (event_key (take 8 uuid4)))
      else hgetall db k)"
  by (simp add: create_event_def Let_def hgetall_geoadd hgetall_hset split: sum.splits)

section \<open>Distances of the server and the example data\<close>

lemma sin_taylor8:
  fixes x :: real
  shows "\<bar>sin x - (x - x ^ 3 / 6 + x ^ 5 / 120 - x ^ 7 / 5040)\<bar> \<le> \<bar>x\<bar> ^ 8 / 40320"
proof -
  have expand: "(\<Sum>m<8. sin_coeff m * x ^ m) = x - x ^ 3 / 6 + x ^ 5 / 120 - x ^ 7 / 5040"
    by (simp add: eval_nat_numeral lessThan_Suc sin_coeff_Suc cos_coeff_Suc del: of_nat_Suc)
  have "(fact 8 :: real) = 40320"
    by (simp add: eval_nat_numeral)
  then have "inverse (fact 8) * \<bar>x\<bar> ^ 8 = \<bar>x\<bar> ^ 8 / 40320"
    by (simp only:) simp
  with Maclaurin_sin_bound [of x 8] show ?thesis
    by (simp only: expand)
qed

lemma pi_lower: "3.1414 < pi"
proof -
  let ?c = "52358 / 100000 :: real"
  have "sin ?c \<le> (?c - ?c ^ 3 / 6 + ?c ^ 5 / 120 - ?c ^ 7 / 5040) + \<bar>?c\<bar> ^ 8 / 40320"
    using sin_taylor8 [of ?c] by (simp only: abs_le_iff) linarith
  also have "\<dots> < 1 / 2"
    by (simp add: power_divide)
  finally have "sin ?c < sin (pi / 6)" by (simp only: sin_30)
  moreover have "?c \<le> pi / 2" "- (pi / 2) \<le> ?c"
    using pi_ge_two by simp_all
  ultimately have "?c < pi / 6"
    by (subst (asm) sin_mono_less_eq) simp_all
  then show ?thesis by simp
qed

lemma pi_upper: "pi < 3.1418"
proof -
  let ?c = "52362 / 100000 :: real"
  have "1 / 2 < (?c - ?c ^ 3 / 6 + ?c ^ 5 / 120 - ?c ^ 7 / 5040) - \<bar>?c\<bar> ^ 8 / 40320"
    by (simp add: power_divide)
  also have "\<dots> \<le> sin ?c"
    using sin_taylor8 [of ?c] by (simp only: abs_le_iff) linarith
  finally have "sin (pi / 6) < sin ?c" by (simp only: sin_30)
  moreover have "?c \<le> pi / 2" "- (pi / 2) \<le> ?c"
    using pi_ge_two by simp_all
  ultimately have "pi / 6 < ?c"
    by (subst (asm) sin_mono_less_eq) simp_all
  then show ?thesis by simp
qed

lemma haversine_scale: "haversine (c * R) lon1 lat1 lon2 lat2 = c * haversine R lon1 lat1 lon2 lat2"
  by (simp add: haversine_def Let_def)

lemma abs_sin_eq:
  fixes t :: real
  assumes "\<bar>t\<bar> \<le> pi"
  shows "\<bar>sin t\<bar> = sin \<bar>t\<bar>"
proof (cases "0 \<le> t")
  case True
  with assms have "0 \<le> sin t" by (intro sin_ge_zero) simp_all
  with True show ?thesis by simp
next
  case False
  with assms have "0 \<le> sin (- t)" by (intro sin_ge_zero) simp_all
  with False show ?thesis by simp
qed

lemma haversine_same_lon:
  assumes "\<bar>lat2 - lat1\<bar> \<le> 180"
  shows "haversine R lon lat1 lon lat2 = R * \<bar>lat2 - lat1\<bar> * pi / 180"
proof -
  define t where "t = (deg_rad lat2 - deg_rad lat1) / 2"
  have "t = (lat2 - lat1) * (pi / 360)"
    by (simp add: t_def deg_rad_def field_simps)
  then have tabs: "\<bar>t\<bar> = \<bar>lat2 - lat1\<bar> * pi / 360"
    by (simp only: abs_mult) simp
  have "\<bar>lat2 - lat1\<bar> * pi \<le> 180 * pi"
    using assms by (intro mult_right_mono) simp_all
  then have range: "\<bar>t\<bar> \<le> pi / 2"
    unfolding tabs by simp
  have "sqrt (sin t * sin t) = \<bar>sin t\<bar>" by simp
  also have "\<dots> = sin \<bar>t\<bar>"
    by (rule abs_sin_eq) (use range pi_ge_two in linarith)
  finally have root: "arcsin (sqrt (sin t * sin t)) = \<bar>t\<bar>"
    using range by (simp add: arcsin_sin)
  have "haversine R lon lat1 lon lat2 = 2 * R * arcsin (sqrt (sin t * sin t))"
    by (simp add: haversine_def Let_def t_def)
  also have "\<dots> = 2 * R * \<bar>t\<bar>"
    by (simp only: root)
  also have "\<dots> = R * \<bar>lat2 - lat1\<bar> * pi / 180"
    by (simp add: tabs)
  finally show ?thesis .
qed

lemma server_distance_km:
  "server_distance lon1 lat1 lon2 lat2 \<le> radius * 1000
     \<longleftrightarrow> haversine 6372.797560856 lon1 lat1 lon2 lat2 \<le> radius"
proof -
  have "server_distance lon1 lat1 lon2 lat2 = 1000 * haversine 6372.797560856 lon1 lat1 lon2 lat2"
    unfolding server_distance_def using haversine_scale [of 1000 "6372.797560856"] by simp
  then show ?thesis by simp
qed

lemma georadius_server:
  assumes "server_accepts lon lat" "0 \<le> radius"
  shows "georadius redis_server db lon lat radius KM ASC =
           Inr (map (\<lambda>found. (fst found, fixed4 (snd found / 1000)))
                  (sort_key snd (in_radius (events_geo db) lon lat (radius * 1000))))"
  using assms
  by (simp add: georadius_def redis_server_def server_georadius_def to_meters_def Let_def)

lemma in_radius_filter:
  "in_radius idx lon lat radius_m =
     map (\<lambda>entry. (fst entry, member_distance lon lat entry))
       (filter (\<lambda>entry. member_distance lon lat entry \<le> radius_m) idx)"
  by (induction idx) (simp_all add: in_radius_def member_distance_def)

lemma set_server_hits:
  "set (map (\<lambda>found. (fst found, fixed4 (snd found / 1000)))
          (sort_key snd (in_radius idx lon lat radius_m)))
     = reply_of lon lat ` {entry \<in> set idx. member_distance lon lat entry \<le> radius_m}"
proof -
  have "(\<lambda>found. (fst found, fixed4 (snd found / 1000))) \<circ>
          (\<lambda>entry. (fst entry, member_distance lon lat entry)) = reply_of lon lat"
    by (rule ext) (simp add: reply_of_def)
  then show ?thesis
    by (simp add: in_radius_filter image_comp)
qed

lemma server_hits:
  assumes "server_accepts lon lat" "0 \<le> radius"
  obtains hits where
    "georadius redis_server db lon lat radius KM ASC = Inr hits"
    "set hits = reply_of lon lat `
                  {entry \<in> set (events_geo db). member_distance lon lat entry \<le> radius * 1000}"
  using georadius_server [OF assms] set_server_hits by blast

lemma id_of_annotate:
  "map_of (annotate db hit) ''id'' = map_of (hgetall db (event_key (fst hit))) ''id''"
  by (simp add: annotate_def update_conv')

lemma event_key_inject [simp]: "event_key a = event_key b \<longleftrightarrow> a = b"
  by (simp add: event_key_def)

lemma served_db_eq:
  "served_db =
     \<lparr>hashes = [(''event:0a1b2c3d'',
                   [(''id'', Str ''0a1b2c3d''), (''name'', Str ''Delhi''), (''lat'', NumStr 28.6139),
                    (''lon'', NumStr 77.2090), (''created_at'', IntStr 1700000000)]),
                 (''event:9f8e7d6c'',
                   [(''id'', Str ''9f8e7d6c''), (''name'', Str ''North''), (''lat'', NumStr 28.79374),
                    (''lon'', NumStr 77.2090), (''created_at'', IntStr 1700000001)])],
      events_geo = [(''0a1b2c3d'', 77.2090, 28.6139), (''9f8e7d6c'', 77.2090, 28.79374)]\<rparr>"
  by (simp add: served_db_def delhi_uuid_def north_uuid_def create_event_def Let_def hset_def
        hgetall_def geoadd_def redis_server_def server_accepts_def empty_db_def event_key_def)

lemma consistent_served_db: "consistent served_db"
  by (simp add: served_db_eq consistent_def hgetall_def event_key_def)

lemma accepts_delhi: "server_accepts 77.2090 28.6139"
  by (simp add: server_accepts_def)

lemma distance_delhi: "server_distance 77.2090 28.6139 77.2090 28.6139 = 0"
  by (simp add: server_distance_def haversine_same_lon)

lemma distance_north: "20 * 1000 < server_distance 77.2090 28.6139 77.2090 28.79374"
proof -
  have "server_distance 77.2090 28.6139 77.2090 28.79374
          = 6372797.560856 * \<bar>28.79374 - 28.6139\<bar> * pi / 180"
    unfolding server_distance_def by (rule haversine_same_lon) simp
  then show ?thesis using pi_lower by simp
qed

lemma spec_distance_north: "great_circle_km 77.2090 28.6139 77.2090 28.79374 \<le> 20"
proof -
  have "great_circle_km 77.2090 28.6139 77.2090 28.79374
          = 6371.0 * \<bar>28.79374 - 28.6139\<bar> * pi / 180"
    unfolding great_circle_km_def by (rule haversine_same_lon) simp
  then show ?thesis using pi_upper by simp
qed

lemma served_reply:
  "georadius redis_server served_db 77.2090 28.6139 20 KM ASC = Inr [(''0a1b2c3d'', 0)]"
proof -
  have inside: "in_radius (events_geo served_db) 77.2090 28.6139 (20 * 1000) = [(''0a1b2c3d'', 0)]"
    using distance_delhi distance_north by (simp add: in_radius_def served_db_eq)
  have "georadius redis_server served_db 77.2090 28.6139 20 KM ASC =
           Inr (map (\<lambda>found. (fst found, fixed4 (snd found / 1000)))
                  (sort_key snd (in_radius (events_geo served_db) 77.2090 28.6139 (20 * 1000))))"
    by (rule georadius_server [OF accepts_delhi]) simp
  also have "\<dots> = Inr [(''0a1b2c3d'', 0)]"
    by (simp only: inside) (simp add: fixed4_def round_half_even_def)
  finally show ?thesis .
qed









lemma consistent_empty_db: "consistent empty_db"
  by (simp add: consistent_def empty_db_def)

lemma consistent_clear_events: "consistent (snd (clear_events db))"
  by (simp add: consistent_def events_geo_clear_events)

lemma set_update_subset: "set (AList.update k v al) \<subseteq> insert (k, v) (set al)"
  by (induction al) auto

lemma consistent_create_event:
  assumes "consistent db"
  shows "consistent (snd (create_event eng uuid4 now name lat lon db))"
proof -
  let ?id = "take 8 uuid4"
  let ?db = "snd (create_event eng uuid4 now name lat lon db)"
  have geo: "events_geo ?db = events_geo db
               \<or> events_geo ?db = AList.update ?id (lon, lat) (events_geo db)"
    by (simp add: create_event_def Let_def geoadd_def events_geo_hset)
  have keys: "distinct (map fst (events_geo ?db))"
    using geo assms by (auto simp: consistent_def distinct_update)
  have written: "map_of (hgetall ?db (event_key ?id)) ''id'' = Some (Str ?id)"
    by (simp add: create_event_record update_conv')
  have "map_of (hgetall ?db (event_key (fst entry))) ''id'' = Some (Str (fst entry))"
    if "entry \<in> set (events_geo ?db)" for entry
  proof (cases "fst entry = ?id")
    case True
    with written show ?thesis by simp
  next
    case False
    with that geo set_update_subset [of ?id "(lon, lat)" "events_geo db"]
    have "entry \<in> set (events_geo db)" by auto
    with assms have "map_of (hgetall db (event_key (fst entry))) ''id'' = Some (Str (fst entry))"
      by (simp add: consistent_def)
    with False show ?thesis by (simp add: create_event_record event_key_def)
  qed
  with keys show ?thesis by (simp add: consistent_def)
qed

section \<open>Which events a search returns\<close>

text \<open>
  C1, as stated, at a concrete input. The event \<^verbatim>\<open>9f8e7d6c\<close> is 0.17984 degrees north of
  the query point: 19.997 km away on a sphere of radius 6371.0 km, within the radius of
  20 km. The server measures with its radius of 6372.797560856 km and finds 20.003 km:
  the search returns the event at the query point only.
\<close>

theorem search_spec_radius_counterexample:
  "(''9f8e7d6c'', 77.2090, 28.79374) \<in> set (events_geo served_db)
   \<and> hgetall served_db ''event:9f8e7d6c'' \<noteq> []
   \<and> great_circle_km 77.2090 28.6139 77.2090 28.79374 \<le> 20
   \<and> search_events redis_server served_db 28.6139 77.2090 20
       = Inr \<lparr>events = [[(''id'', Str ''0a1b2c3d''), (''name'', Str ''Delhi''),
                          (''lat'', NumStr 28.6139), (''lon'', NumStr 77.2090),
                          (''created_at'', IntStr 1700000000), (''distance'', Num 0)]],
               count = 1\<rparr>"
proof -
  have "search_events redis_server served_db 28.6139 77.2090 20
       = Inr \<lparr>events = [[(''id'', Str ''0a1b2c3d''), (''name'', Str ''Delhi''),
                          (''lat'', NumStr 28.6139), (''lon'', NumStr 77.2090),
                          (''created_at'', IntStr 1700000000), (''distance'', Num 0)]],
               count = 1\<rparr>"
    using search_events_join [OF served_reply]
    by (simp add: has_record_def annotate_def hgetall_def served_db_eq event_key_def round2_float_0)
  then show ?thesis
    using spec_distance_north by (simp add: served_db_eq hgetall_def)
qed

text \<open>
  C1, amended. When the two stores agree, for every member of the index and every
  search that the server accepts (a centre in its range of coordinates, a radius of at
  least 0), \<open>search_events\<close> returns the identifier of the member if and only if the
  haversine distance from its stored point to the centre, on a sphere of radius
  6372.797560856 km, is at most the radius in kilometres.
\<close>

theorem search_returns_within_server_radius:
  assumes "consistent db" and "server_accepts lon lat" and "0 \<le> radius"
    and "(m, lon', lat') \<in> set (events_geo db)"
  shows "\<exists>resp. search_events redis_server db lat lon radius = Inr resp
           \<and> (Some (Str m) \<in> set (returned_ids resp)
                 \<longleftrightarrow> haversine 6372.797560856 lon lat lon' lat' \<le> radius)"
proof -
  from server_hits [OF assms(2,3), of db] obtain hits where
    reply: "georadius redis_server db lon lat radius KM ASC = Inr hits" and
    hits: "set hits = reply_of lon lat `
             {entry \<in> set (events_geo db). member_distance lon lat entry \<le> radius * 1000}"
    by blast
  let ?resp = "\<lparr>events = map (annotate db) (filter (has_record db) hits),
                count = length (filter (has_record db) hits)\<rparr>"
  have found: "search_events redis_server db lat lon radius = Inr ?resp"
    by (rule search_events_join [OF reply])
  have ids: "map_of (hgetall db (event_key (fst entry))) ''id'' = Some (Str (fst entry))"
    if "entry \<in> set (events_geo db)" for entry
    using assms(1) that by (simp add: consistent_def)
  have km: "member_distance lon lat (m, lon', lat') \<le> radius * 1000
              \<longleftrightarrow> haversine 6372.797560856 lon lat lon' lat' \<le> radius"
    by (simp add: member_distance_def server_distance_km)
  have "Some (Str m) \<in> set (returned_ids ?resp)"
    if near: "member_distance lon lat (m, lon', lat') \<le> radius * 1000"
  proof -
    let ?hit = "reply_of lon lat (m, lon', lat')"
    have "?hit \<in> set hits" using hits near assms(4) by blast
    moreover have "has_record db ?hit"
      using ids [OF assms(4)] by (auto simp: has_record_def reply_of_def)
    moreover have "map_of (annotate db ?hit) ''id'' = Some (Str m)"
      using ids [OF assms(4)] by (simp add: id_of_annotate reply_of_def)
    ultimately have "annotate db ?hit \<in> set (events ?resp)"
      "map_of (annotate db ?hit) ''id'' = Some (Str m)"
      by simp_all
    then show ?thesis
      unfolding returned_ids_def by (simp only: set_map) (metis imageI)
  qed
  moreover have "member_distance lon lat (m, lon', lat') \<le> radius * 1000"
    if "Some (Str m) \<in> set (returned_ids ?resp)"
  proof -
    from that obtain hit where "hit \<in> set hits"
      "map_of (annotate db hit) ''id'' = Some (Str m)"
      by (auto simp: returned_ids_def)
    with hits obtain entry where entry: "entry \<in> set (events_geo db)"
      "member_distance lon lat entry \<le> radius * 1000"
      "map_of (hgetall db (event_key (fst entry))) ''id'' = Some (Str m)"
      by (auto simp: id_of_annotate reply_of_def)
    with ids [OF entry(1)] have "fst entry = m" by simp
    moreover have "distinct (map fst (events_geo db))"
      using assms(1) by (simp add: consistent_def)
    ultimately have "entry = (m, lon', lat')"
      using entry(1) assms(4) by (metis eq_key_imp_eq_value prod.collapse)
    with entry(2) show ?thesis by simp
  qed
  ultimately show ?thesis
    using found km by (intro exI [of _ ?resp]) blast
qed

theorem search_returns_within_server_radius_witness:
  "consistent served_db \<and> server_accepts 77.2090 28.6139 \<and> (0 :: real) \<le> 20
   \<and> (''0a1b2c3d'', 77.2090, 28.6139) \<in> set (events_geo served_db)
   \<and> (''9f8e7d6c'', 77.2090, 28.79374) \<in> set (events_geo served_db)
   \<and> (\<exists>resp. search_events redis_server served_db 28.6139 77.2090 20 = Inr resp
         \<and> Some (Str ''0a1b2c3d'') \<in> set (returned_ids resp)
         \<and> Some (Str ''9f8e7d6c'') \<notin> set (returned_ids resp))"
proof -
  have r: "(0 :: real) \<le> 20" by simp
  have delhi: "(''0a1b2c3d'', 77.2090, 28.6139) \<in> set (events_geo served_db)"
    and north: "(''9f8e7d6c'', 77.2090, 28.79374) \<in> set (events_geo served_db)"
    by (simp_all add: served_db_eq)
  have near: "haversine 6372.797560856 77.2090 28.6139 77.2090 28.6139 \<le> 20"
    using distance_delhi server_distance_km [of "77.2090" "28.6139" "77.2090" "28.6139" 20] by simp
  have far: "\<not> haversine 6372.797560856 77.2090 28.6139 77.2090 28.79374 \<le> 20"
    using distance_north server_distance_km [of "77.2090" "28.6139" "77.2090" "28.79374" 20] by simp
  from search_returns_within_server_radius [OF consistent_served_db accepts_delhi r delhi] near
  obtain resp where resp: "search_events redis_server served_db 28.6139 77.2090 20 = Inr resp"
    and "Some (Str ''0a1b2c3d'') \<in> set (returned_ids resp)"
    by blast
  moreover from search_returns_within_server_radius [OF consistent_served_db accepts_delhi r north] far resp
  have "Some (Str ''9f8e7d6c'') \<notin> set (returned_ids resp)"
    by auto
  ultimately show ?thesis
    using consistent_served_db accepts_delhi r delhi north by blast
qed

section \<open>The order of the search results\<close>

text \<open>
  C2, as stated, at a concrete input. \<open>search_events\<close> asks the engine for ascending
  order and sorts nothing itself. The engine orders by distance only, so two members at
  the same distance come in the order of the reply: here \<^verbatim>\<open>bbbbbbbb\<close> before
  \<^verbatim>\<open>aaaaaaaa\<close>, both at 1 km, and the result keeps that order.
\<close>

theorem search_tie_order_counterexample:
  "sorted (map snd [(''bbbbbbbb'', 1 :: real), (''aaaaaaaa'', 1)])
   \<and> search_events (engine [(''bbbbbbbb'', 1), (''aaaaaaaa'', 1)]) pair_db 28.6139 77.2090 5
       = Inr \<lparr>events = [[(''id'', Str ''bbbbbbbb''), (''name'', Str ''West''), (''distance'', Num 1)],
                         [(''id'', Str ''aaaaaaaa''), (''name'', Str ''East''), (''distance'', Num 1)]],
              count = 2\<rparr>"
  by (simp add: search_events_def georadius_def engine_def scripted_def pair_db_def hgetall_def
        event_key_def round2_float_1)

text \<open>
  C2, amended. The result keeps the order of the engine's reply: it is the reply without
  the hits that have no record. So when the reply is in non-decreasing order of distance,
  the returned list is in non-decreasing order of distance, both of the full-precision
  distance of the hits and of the rounded distance that is reported. Nothing is said on
  the order of two results at the same distance.
\<close>

theorem search_keeps_engine_order:
  assumes "georadius eng db lon lat radius KM ASC = Inr hits"
    and "sorted (map snd hits)"
  shows "\<exists>resp. search_events eng db lat lon radius = Inr resp
           \<and> events resp = map (annotate db) (filter (has_record db) hits)
           \<and> sorted (map snd (filter (has_record db) hits))
           \<and> sorted (map distance_of (events resp))"
proof -
  let ?kept = "filter (has_record db) hits"
  let ?resp = "\<lparr>events = map (annotate db) ?kept, count = length ?kept\<rparr>"
  have found: "search_events eng db lat lon radius = Inr ?resp"
    by (rule search_events_join [OF assms(1)])
  have eq: "map distance_of (map (annotate db) ?kept)
              = map (\<lambda>hit. round2 (nearest_double (snd hit))) ?kept"
    by (simp add: distance_of_annotate)
  have reported: "sorted (map distance_of (map (annotate db) ?kept))"
    unfolding eq by (rule sorted_map_round2 [OF assms(2)])
  have full: "sorted (map snd ?kept)"
    using assms(2) by (induction hits) auto
  show ?thesis
    using found reported full by (intro exI [of _ ?resp]) simp
qed

theorem search_keeps_engine_order_witness:
  "georadius (engine [(''0a1b2c3d'', 0), (''ffffffff'', 2.1049)]) delhi_db 77.2090 28.6139 5 KM ASC
     = Inr [(''0a1b2c3d'', 0), (''ffffffff'', 2.1049)]
   \<and> sorted (map snd [(''0a1b2c3d'', 0 :: real), (''ffffffff'', 2.1049)])
   \<and> (\<exists>resp. search_events (engine [(''0a1b2c3d'', 0), (''ffffffff'', 2.1049)]) delhi_db 28.6139 77.2090 5 = Inr resp
           \<and> sorted (map distance_of (events resp)))"
proof -
  have g: "georadius (engine [(''0a1b2c3d'', 0), (''ffffffff'', 2.1049)]) delhi_db 77.2090 28.6139 5 KM ASC
             = Inr [(''0a1b2c3d'', 0), (''ffffffff'', 2.1049)]"
    by (simp add: georadius_engine)
  have s: "sorted (map snd [(''0a1b2c3d'', 0 :: real), (''ffffffff'', 2.1049)])"
    by simp
  from search_keeps_engine_order [OF g s] obtain resp where
    "search_events (engine [(''0a1b2c3d'', 0), (''ffffffff'', 2.1049)]) delhi_db 28.6139 77.2090 5 = Inr resp"
    "sorted (map distance_of (events resp))"
    by blast
  then show ?thesis using g s by blast
qed

section \<open>A refused geo insert\<close>

text \<open>
  C3, as stated, at a concrete input. A latitude of 100 is refused by the Geo Index
  after the hash was written; \<open>create_event\<close> has no handler that deletes it, so the
  request fails and the Event Store keeps a record that has no geo entry.
\<close>

theorem create_event_orphan_counterexample:
  "\<not> in_range 77.2090 100
   \<and> fst (create_event (engine []) ''0a1b2c3d-1111-4111-8111-111111111111'' 1700000000
            ''North'' 100 77.2090 empty_db)
       = Inl (ResponseError ''ERR invalid longitude,latitude pair'')
   \<and> snd (create_event (engine []) ''0a1b2c3d-1111-4111-8111-111111111111'' 1700000000
            ''North'' 100 77.2090 empty_db)
       = \<lparr>hashes = [(''event:0a1b2c3d'',
                       [(''id'', Str ''0a1b2c3d''), (''name'', Str ''North''), (''lat'', NumStr 100),
                        (''lon'', NumStr 77.2090), (''created_at'', IntStr 1700000000)])],
           events_geo = []\<rparr>"
  by (simp add: create_event_def Let_def hset_def hgetall_def geoadd_def engine_def in_range_def
        empty_db_def event_key_def)

text \<open>
  C3, amended. For every call of \<open>create_event\<close> whose coordinates the Geo Index
  refuses, the operation fails with the error of the index and the index is unchanged,
  but the attribute record written before the failed insert is not rolled back: the
  Event Store holds the record of the new identifier afterwards.
\<close>

theorem create_event_refused_keeps_record:
  assumes "\<not> accepts eng lon lat"
  shows "fst (create_event eng uuid4 now name lat lon db)
           = Inl (ResponseError ''ERR invalid longitude,latitude pair'')
       \<and> events_geo (snd (create_event eng uuid4 now name lat lon db)) = events_geo db
       \<and> has_record (snd (create_event eng uuid4 now name lat lon db)) (take 8 uuid4, d)
       \<and> map_of (hgetall (snd (create_event eng uuid4 now name lat lon db)) (event_key (take 8 uuid4)))
            ''name'' = Some (Str name)
       \<and> event_key (take 8 uuid4) \<in> set (keys_event (snd (create_event eng uuid4 now name lat lon db)))"
proof -
  let ?db = "snd (create_event eng uuid4 now name lat lon db)"
  let ?key = "event_key (take 8 uuid4)"
  have failed: "fst (create_event eng uuid4 now name lat lon db)
           = Inl (ResponseError ''ERR invalid longitude,latitude pair'')"
    using assms by (simp add: create_event_def Let_def geoadd_def)
  have geo: "events_geo ?db = events_geo db"
    using assms by (simp add: create_event_def Let_def geoadd_def events_geo_hset)
  have name: "map_of (hgetall ?db ?key) ''name'' = Some (Str name)"
    by (simp add: create_event_record update_conv')
  then have kept: "has_record ?db (take 8 uuid4, d)"
    by (auto simp: has_record_def)
  from kept have "map_of (hashes ?db) ?key \<noteq> None"
    by (auto simp: has_record_def hgetall_def split: option.splits)
  then have "?key \<in> fst ` set (hashes ?db)"
    by (simp add: map_of_eq_None_iff)
  then have listed: "?key \<in> set (keys_event ?db)"
    by (simp add: keys_event_def event_key_matches)
  show ?thesis using failed geo name kept listed by blast
qed

theorem create_event_refused_keeps_record_witness:
  "\<not> accepts (engine []) 77.2090 100
   \<and> fst (create_event (engine []) ''0a1b2c3d-1111-4111-8111-111111111111'' 1700000000
            ''North'' 100 77.2090 empty_db)
       = Inl (ResponseError ''ERR invalid longitude,latitude pair'')
   \<and> has_record (snd (create_event (engine []) ''0a1b2c3d-1111-4111-8111-111111111111'' 1700000000
            ''North'' 100 77.2090 empty_db)) (''0a1b2c3d'', 0)"
proof -
  have refused: "\<not> accepts (engine []) 77.2090 100"
    by (simp add: engine_def in_range_def)
  from create_event_refused_keeps_record [OF refused,
         of "''0a1b2c3d-1111-4111-8111-111111111111''" 1700000000 "''North''" empty_db 0]
  show ?thesis using refused by simp
qed

section \<open>Identifiers of created events\<close>

text \<open>
  C4, as stated, at a concrete input. The identifier is the first eight characters of
  a random UUID and is not looked up before the write. A second call that draws a UUID
  with the same first eight characters reports success and replaces the record and the
  point of the first event.
\<close>

theorem create_event_collision_counterexample:
  "hgetall first_db ''event:0a1b2c3d''
     = [(''id'', Str ''0a1b2c3d''), (''name'', Str ''Delhi''), (''lat'', NumStr 28.6139),
        (''lon'', NumStr 77.2090), (''created_at'', IntStr 1700000000)]
   \<and> fst (create_event (engine []) ''0a1b2c3d-2222-4222-8222-222222222222'' 1700000001
            ''Mumbai'' 19.0760 72.8777 first_db)
       = Inr \<lparr>success = True, event_id = ''0a1b2c3d'',
               message = ''Event '' @ [CHR 0x22] @ ''Mumbai'' @ [CHR 0x22] @ '' created successfully''\<rparr>
   \<and> snd (create_event (engine []) ''0a1b2c3d-2222-4222-8222-222222222222'' 1700000001
            ''Mumbai'' 19.0760 72.8777 first_db)
       = \<lparr>hashes = [(''event:0a1b2c3d'',
                       [(''id'', Str ''0a1b2c3d''), (''name'', Str ''Mumbai''), (''lat'', NumStr 19.0760),
                        (''lon'', NumStr 72.8777), (''created_at'', IntStr 1700000001)])],
           events_geo = [(''0a1b2c3d'', 72.8777, 19.0760)]\<rparr>"
  by (simp add: first_db_def create_event_def Let_def hset_def hgetall_def geoadd_def engine_def
        in_range_def empty_db_def event_key_def)

text \<open>
  C4, amended. For every call of \<open>create_event\<close> that the Geo Index accepts, whether
  or not the identifier is already a key: the call succeeds with the first eight
  characters of the UUID as identifier, the record under that key then holds the new id,
  name, lat, lon and created\_at, the member of the index is at the new point, and the
  record under every other key is unchanged. No existing key is checked and no
  identifier is drawn again.
\<close>

theorem create_event_writes_unchecked:
  assumes "accepts eng lon lat"
  shows "fst (create_event eng uuid4 now name lat lon db)
           = Inr \<lparr>success = True, event_id = take 8 uuid4,
                   message = ''Event '' @ [CHR 0x22] @ name @ [CHR 0x22] @ '' created successfully''\<rparr>
       \<and> map_of (hgetall (snd (create_event eng uuid4 now name lat lon db)) (event_key (take 8 uuid4))) ''id''
            = Some (Str (take 8 uuid4))
       \<and> map_of (hgetall (snd (create_event eng uuid4 now name lat lon db)) (event_key (take 8 uuid4))) ''name''
            = Some (Str name)
       \<and> map_of (hgetall (snd (create_event eng uuid4 now name lat lon db)) (event_key (take 8 uuid4))) ''lat''
            = Some (NumStr lat)
       \<and> map_of (hgetall (snd (create_event eng uuid4 now name lat lon db)) (event_key (take 8 uuid4))) ''lon''
            = Some (NumStr lon)
       \<and> map_of (hgetall (snd (create_event eng uuid4 now name lat lon db)) (event_key (take 8 uuid4))) ''created_at''
            = Some (IntStr now)
       \<and> map_of (events_geo (snd (create_event eng uuid4 now name lat lon db))) (take 8 uuid4) = Some (lon, lat)
       \<and> (\<forall>k. k \<noteq> event_key (take 8 uuid4) \<longrightarrow>
              hgetall (snd (create_event eng uuid4 now name lat lon db)) k = hgetall db k)"
proof -
  let ?db = "snd (create_event eng uuid4 now name lat lon db)"
  have created: "fst (create_event eng uuid4 now name lat lon db)
           = Inr \<lparr>success = True, event_id = take 8 uuid4,
                   message = ''Event '' @ [CHR 0x22] @ name @ [CHR 0x22] @ '' created successfully''\<rparr>"
    using assms by (simp add: create_event_def Let_def geoadd_def)
  have geo: "map_of (events_geo ?db) (take 8 uuid4) = Some (lon, lat)"
    using assms by (simp add: create_event_def Let_def geoadd_def update_conv')
  have others: "\<forall>k. k \<noteq> event_key (take 8 uuid4) \<longrightarrow> hgetall ?db k = hgetall db k"
    by (simp add: create_event_record)
  show ?thesis
    using created geo others by (simp add: create_event_record update_conv')
qed

theorem create_event_writes_unchecked_witness:
  "accepts (engine []) 72.8777 19.0760
   \<and> map_of (hgetall first_db (event_key (take 8 ''0a1b2c3d-2222-4222-8222-222222222222''))) ''name''
       = Some (Str ''Delhi'')
   \<and> map_of (hgetall (snd (create_event (engine []) ''0a1b2c3d-2222-4222-8222-222222222222'' 1700000001
                              ''Mumbai'' 19.0760 72.8777 first_db))
               (event_key (take 8 ''0a1b2c3d-2222-4222-8222-222222222222''))) ''name''
       = Some (Str ''Mumbai'')"
proof -
  have ok: "accepts (engine []) 72.8777 19.0760"
    by (simp add: engine_def in_range_def)
  have old: "map_of (hgetall first_db (event_key (take 8 ''0a1b2c3d-2222-4222-8222-222222222222''))) ''name''
       = Some (Str ''Delhi'')"
    by (simp add: first_db_def create_event_def Let_def hset_def hgetall_def geoadd_def engine_def
          in_range_def empty_db_def event_key_def)
  from create_event_writes_unchecked [OF ok,
         of "''0a1b2c3d-2222-4222-8222-222222222222''" 1700000001 "''Mumbai''" first_db]
  show ?thesis using ok old by blast
qed

section \<open>A radius that is not positive\<close>

text \<open>
  C5, as stated, at a concrete input. \<open>search_events\<close> hands the radius to GEORADIUS
  unchanged; the server refuses a negative radius, and the error is not caught: the
  search with radius -1 fails.
\<close>

theorem search_negative_radius_counterexample:
  "(- 1 :: real) \<le> 0
   \<and> search_events (engine []) empty_db 28.6139 77.2090 (- 1)
       = Inl (ResponseError ''ERR radius cannot be negative'')"
  by (simp add: search_events_def georadius_def engine_def scripted_def)

text \<open>
  C5, amended. For every search with a radius at most 0, the answer is the engine's:
  when the engine replies with no hit that has a record, the search succeeds with an
  empty list and count 0; when the engine refuses the radius, the search fails with
  that error.
\<close>

theorem search_radius_unguarded:
  assumes "radius \<le> 0"
  shows "(\<forall>hits. georadius eng db lon lat radius KM ASC = Inr hits \<and> filter (has_record db) hits = []
            \<longrightarrow> search_events eng db lat lon radius = Inr \<lparr>events = [], count = 0\<rparr>)
       \<and> (\<forall>e. georadius eng db lon lat radius KM ASC = Inl e
            \<longrightarrow> search_events eng db lat lon radius = Inl e)"
  using search_events_join [of eng db lon lat radius] search_events_error [of eng db lon lat radius]
  by auto

theorem search_radius_unguarded_witness:
  "(0 :: real) \<le> 0
   \<and> georadius (engine []) delhi_db 77.2090 28.6139 0 KM ASC = Inr []
   \<and> filter (has_record delhi_db) [] = []
   \<and> search_events (engine []) delhi_db 28.6139 77.2090 0 = Inr \<lparr>events = [], count = 0\<rparr>"
proof -
  have r: "(0 :: real) \<le> 0" by simp
  have g: "georadius (engine []) delhi_db 77.2090 28.6139 0 KM ASC = Inr []"
    by (simp add: georadius_engine)
  have f: "filter (has_record delhi_db) [] = []" by simp
  from search_radius_unguarded [OF r, of "engine []" delhi_db "77.2090" "28.6139"] g f
  have "search_events (engine []) delhi_db 28.6139 77.2090 0 = Inr \<lparr>events = [], count = 0\<rparr>"
    by blast
  then show ?thesis using r g f by blast
qed

section \<open>Hits without a record\<close>

text \<open>
  C6. For every search that the geo engine answers, the search succeeds and returns, in
  the order of the hits, one entry for each hit whose record is in the Event Store: a
  hit whose record is missing is dropped, and every returned entry is the whole stored
  record with the distance added.
\<close>
theorem search_drops_missing_records:
  assumes "georadius eng db lon lat radius KM ASC = Inr hits"
  shows "\<exists>resp. search_events eng db lat lon radius = Inr resp
           \<and> events resp = map (annotate db) (filter (has_record db) hits)
           \<and> (\<forall>details \<in> set (events resp).
                 \<exists>hit \<in> set hits. hgetall db (event_key (fst hit)) \<noteq> []
                    \<and> details = AList.update ''distance'' (Num (round2 (nearest_double (snd hit))))
                                  (hgetall db (event_key (fst hit))))"
proof -
  let ?resp = "\<lparr>events = map (annotate db) (filter (has_record db) hits),
                count = length (filter (has_record db) hits)\<rparr>"
  have "search_events eng db lat lon radius = Inr ?resp"
    by (rule search_events_join [OF assms])
  moreover have "\<exists>hit \<in> set hits. hgetall db (event_key (fst hit)) \<noteq> []
                    \<and> details = AList.update ''distance'' (Num (round2 (nearest_double (snd hit))))
                                  (hgetall db (event_key (fst hit)))"
    if "details \<in> set (events ?resp)" for details
  proof -
    from that obtain hit where "hit \<in> set hits" "has_record db hit" "details = annotate db hit"
      by auto
    then show ?thesis unfolding has_record_def annotate_def by blast
  qed
  ultimately show ?thesis by (intro exI [of _ ?resp]) simp
qed

theorem search_drops_missing_records_witness:
  "georadius (engine [(''0a1b2c3d'', 0), (''ffffffff'', 2.1049)]) delhi_db 77.2090 28.6139 5 KM ASC
     = Inr [(''0a1b2c3d'', 0), (''ffffffff'', 2.1049)]
   \<and> hgetall delhi_db (event_key ''ffffffff'') = []
   \<and> (\<exists>resp. search_events (engine [(''0a1b2c3d'', 0), (''ffffffff'', 2.1049)]) delhi_db 28.6139 77.2090 5 = Inr resp
           \<and> events resp = [[(''id'', Str ''0a1b2c3d''), (''name'', Str ''Delhi''),
                              (''lat'', NumStr 28.6139), (''lon'', NumStr 77.2090),
                              (''created_at'', IntStr 1700000000), (''distance'', Num 0)]])"
proof -
  have g: "georadius (engine [(''0a1b2c3d'', 0), (''ffffffff'', 2.1049)]) delhi_db 77.2090 28.6139 5 KM ASC
             = Inr [(''0a1b2c3d'', 0), (''ffffffff'', 2.1049)]"
    by (simp add: georadius_engine)
  from search_drops_missing_records [OF g] obtain resp where
    "search_events (engine [(''0a1b2c3d'', 0), (''ffffffff'', 2.1049)]) delhi_db 28.6139 77.2090 5 = Inr resp"
    "events resp = map (annotate delhi_db)
                     (filter (has_record delhi_db) [(''0a1b2c3d'', 0), (''ffffffff'', 2.1049)])"
    by blast
  moreover have "hgetall delhi_db (event_key ''ffffffff'') = []"
    by (simp add: hgetall_def delhi_db_def event_key_def)
  ultimately show ?thesis using g
    by (simp add: has_record_delhi annotate_delhi round2_float_0)
qed

section \<open>Rounding of the reported distance\<close>



section \<open>Clearing\<close>

text \<open>
  C8. After \<open>clear_events\<close>, the count is 0, no key \<^verbatim>\<open>event:*\<close> is left, and a search
  with any engine and any query returns no event (or fails with the engine's error).
  The number returned is the number of keys \<^verbatim>\<open>event:*\<close> found before the deletion,
  that is, the number of event records removed.
\<close>

theorem clear_events_empties_both_stores:
  "get_event_count (snd (clear_events db)) = 0
   \<and> keys_event (snd (clear_events db)) = []
   \<and> fst (clear_events db) = length (keys_event db)
   \<and> (distinct (map fst (hashes db)) \<longrightarrow>
        fst (clear_events db) = card {k. event_key_pattern k \<and> map_of (hashes db) k \<noteq> None})
   \<and> ((\<exists>e. search_events eng (snd (clear_events db)) lat lon radius = Inl e)
        \<or> search_events eng (snd (clear_events db)) lat lon radius = Inr \<lparr>events = [], count = 0\<rparr>)"
proof -
  let ?db = "snd (clear_events db)"
  have count: "get_event_count ?db = 0"
    by (simp add: get_event_count_def zcard_def events_geo_clear_events)
  have keys: "keys_event ?db = []"
    by (simp add: keys_event_def hashes_clear_events filter_empty_conv)
  have cleared: "fst (clear_events db) = length (keys_event db)"
    by (rule cleared_clear_events)
  have card: "fst (clear_events db) = card {k. event_key_pattern k \<and> map_of (hashes db) k \<noteq> None}"
    if "distinct (map fst (hashes db))"
    using event_keys_card [OF that] by (simp add: cleared keys_event_def)
  have search: "(\<exists>e. search_events eng ?db lat lon radius = Inl e)
        \<or> search_events eng ?db lat lon radius = Inr \<lparr>events = [], count = 0\<rparr>"
  proof (cases "georadius eng ?db lon lat radius KM ASC")
    case (Inl e)
    then show ?thesis by (simp add: search_events_error)
  next
    case (Inr hits)
    have "filter (has_record ?db) hits = []"
      by (simp add: filter_empty_conv no_record_after_clear)
    with search_events_join [OF Inr] show ?thesis by simp
  qed
  show ?thesis using count keys cleared card search by blast
qed

theorem clear_events_empties_both_stores_witness:
  "distinct (map fst (hashes delhi_db))
   \<and> fst (clear_events delhi_db) = 1
   \<and> card {k. event_key_pattern k \<and> map_of (hashes delhi_db) k \<noteq> None} = 1
   \<and> get_event_count (snd (clear_events delhi_db)) = 0
   \<and> search_events (engine [(''0a1b2c3d'', 0)]) (snd (clear_events delhi_db)) 28.6139 77.2090 5
       = Inr \<lparr>events = [], count = 0\<rparr>"
proof -
  have d: "distinct (map fst (hashes delhi_db))"
    by (simp add: delhi_db_def)
  have c: "fst (clear_events delhi_db) = 1"
    by (simp add: clear_events_def delete_geo_def keys_event_def delhi_db_def event_key_pattern_def)
  have s: "\<not> (\<exists>e. search_events (engine [(''0a1b2c3d'', 0)]) (snd (clear_events delhi_db)) 28.6139 77.2090 5 = Inl e)"
    by (simp add: search_events_def georadius_def engine_def scripted_def split: sum.splits)
  from clear_events_empties_both_stores [of delhi_db "engine [(''0a1b2c3d'', 0)]" "28.6139" "77.2090" 5] d c s
  show ?thesis by simp
qed

section \<open>Bulk loading\<close>

text \<open>
  C9. \<open>insert_events\<close> names every event by the first eight characters of a random
  UUID and never looks for the key. With two draws that share these characters, the
  call returns 2 as the number inserted, and the count of the index, empty before, is 1.
\<close>

theorem insert_events_collision:
  "take 8 (uuid (colliding_draws 0)) = take 8 (uuid (colliding_draws 1))
   \<and> uuid (colliding_draws 0) \<noteq> uuid (colliding_draws 1)
   \<and> fst (insert_events (engine []) colliding_draws 2 100 empty_db) = Inr 2
   \<and> get_event_count (snd (insert_events (engine []) colliding_draws 2 100 empty_db)) = 1"
  by (simp add: insert_events_def Let_def colliding_draws_def upt_rec hset_def hgetall_def geoadd_def
        engine_def in_range_def empty_db_def event_key_def get_event_count_def zcard_def)

section \<open>The count of a search response\<close>

text \<open>
  C10. For every search that the geo engine answers, the field \<open>count\<close> of the response
  is the length of the returned list of events: the number of hits that have a record
  in the Event Store, which is at most the number of raw hits of the Geo Index.
\<close>
theorem search_count_is_length:
  assumes "georadius eng db lon lat radius KM ASC = Inr hits"
  shows "\<exists>resp. search_events eng db lat lon radius = Inr resp
           \<and> count resp = length (events resp)
           \<and> count resp = length (filter (has_record db) hits)
           \<and> count resp \<le> length hits"
  using search_events_join [OF assms] by simp

theorem search_count_is_length_witness:
  "georadius (engine [(''0a1b2c3d'', 0), (''ffffffff'', 2.1049)]) delhi_db 77.2090 28.6139 5 KM ASC
     = Inr [(''0a1b2c3d'', 0), (''ffffffff'', 2.1049)]
   \<and> (\<exists>resp. search_events (engine [(''0a1b2c3d'', 0), (''ffffffff'', 2.1049)]) delhi_db 28.6139 77.2090 5 = Inr resp
           \<and> count resp = length (events resp)
           \<and> count resp = 1)"
proof -
  have g: "georadius (engine [(''0a1b2c3d'', 0), (''ffffffff'', 2.1049)]) delhi_db 77.2090 28.6139 5 KM ASC
             = Inr [(''0a1b2c3d'', 0), (''ffffffff'', 2.1049)]"
    by (simp add: georadius_engine)
  from search_count_is_length [OF g] obtain resp where
    "search_events (engine [(''0a1b2c3d'', 0), (''ffffffff'', 2.1049)]) delhi_db 28.6139 77.2090 5 = Inr resp"
    "count resp = length (events resp)"
    "count resp = length (filter (has_record delhi_db) [(''0a1b2c3d'', 0), (''ffffffff'', 2.1049)])"
    by blast
  then show ?thesis using g by (simp add: has_record_delhi)
qed

end
